theory Spec2Isabelle
  imports Complex_Main "HOL-Library.Word" "HOL-Library.AList"
begin

unbundle bit_operations_syntax

section \<open>JavaScript values\<close>

text \<open>
  Records of the synchronised collection are plain JavaScript objects as they come out of
  \<^verbatim>\<open>JSON.parse\<close> or the document store: trees of primitives, arrays and objects.
  An object is the list of its own properties in enumeration order.  Strings are lists of
  code units below 256; the number \<^verbatim>\<open>-0\<close> is identified with \<^verbatim>\<open>0\<close>
  (no operation of the modelled code tells them apart).
\<close>

datatype jsval =
    JUndefined
  | JNull
  | JBool bool
  | JNum rat
  | JNaN
  | JPosInf
  | JNegInf
  | JStr string
  | JArr "jsval list"
  | JObj "(string \<times> jsval) list"

type_synonym obj = "(string \<times> jsval) list"

text \<open>ToBoolean.\<close>

fun truthy :: "jsval \<Rightarrow> bool" where
  "truthy JUndefined = False"
| "truthy JNull = False"
| "truthy (JBool b) = b"
| "truthy (JNum q) = (q \<noteq> 0)"
| "truthy JNaN = False"
| "truthy (JStr s) = (s \<noteq> [])"
| "truthy _ = True"

text \<open>
  SameValueZero, the equality of \<^verbatim>\<open>Map\<close> keys.  Primitives are compared by content
  (\<^verbatim>\<open>NaN\<close> equals itself).  Arrays and objects are compared by reference; the values of
  a collection are trees without sharing, so two of them are never the same object.
\<close>

fun is_prim :: "jsval \<Rightarrow> bool" where
  "is_prim (JArr _) = False"
| "is_prim (JObj _) = False"
| "is_prim _ = True"

definition SameValueZero :: "jsval \<Rightarrow> jsval \<Rightarrow> bool" where
  "SameValueZero a b = (is_prim a \<and> a = b)"

text \<open>\<^verbatim>\<open>o[k]\<close> on an own property; a missing property reads as \<^verbatim>\<open>undefined\<close>.\<close>

definition get_prop :: "obj \<Rightarrow> string \<Rightarrow> jsval" where
  "get_prop r k = (case map_of r k of None \<Rightarrow> JUndefined | Some v \<Rightarrow> v)"

text \<open>
  \<^verbatim>\<open>o[k] = v\<close> and \<^verbatim>\<open>{...o, k: v}\<close>: an existing property keeps its place, a new one is
  appended.  (JavaScript enumerates integer-like keys first; that reordering is not
  modelled, and nothing below depends on the order of the properties of a merged record.)
\<close>

definition set_prop :: "obj \<Rightarrow> string \<Rightarrow> jsval \<Rightarrow> obj" where
  "set_prop r k v = AList.update k v r"

text \<open>The names every plain object inherits from \<^verbatim>\<open>Object.prototype\<close>; each reads as a truthy value.\<close>

definition Object_prototype_keys :: "string list" where
  "Object_prototype_keys =
     [''constructor'', ''__defineGetter__'', ''__defineSetter__'', ''hasOwnProperty'',
      ''__lookupGetter__'', ''__lookupSetter__'', ''isPrototypeOf'', ''propertyIsEnumerable'',
      ''toString'', ''valueOf'', ''__proto__'', ''toLocaleString'']"

text \<open>ToBoolean of \<^verbatim>\<open>o[k]\<close>, reading through the prototype.\<close>

definition truthy_prop :: "obj \<Rightarrow> string \<Rightarrow> bool" where
  "truthy_prop r k =
     (case map_of r k of Some v \<Rightarrow> truthy v | None \<Rightarrow> k \<in> set Object_prototype_keys)"

definition rec_id :: "obj \<Rightarrow> jsval" where
  "rec_id r = get_prop r ''id''"

datatype js_error = TypeError

text \<open>\<^verbatim>\<open>v.length\<close>: a TypeError on \<^verbatim>\<open>undefined\<close> and \<^verbatim>\<open>null\<close>.\<close>

fun length_of :: "jsval \<Rightarrow> js_error + jsval" where
  "length_of JUndefined = Inl TypeError"
| "length_of JNull = Inl TypeError"
| "length_of (JArr xs) = Inr (JNum (of_nat (length xs)))"
| "length_of (JStr s) = Inr (JNum (of_nat (length s)))"
| "length_of (JObj kvs) = Inr (get_prop kvs ''length'')"
| "length_of _ = Inr JUndefined"

section \<open>The host\<close>

text \<open>
  Built-ins of the JavaScript host whose result is implementation-defined or outside the
  repository are parameters of the model:
  \<^item> \<open>h_date v\<close> is \<^verbatim>\<open>new Date(v).getTime()\<close> for a string, array or object \<open>v\<close>
    (\<open>None\<close> is \<^verbatim>\<open>NaN\<close>, the time value of an invalid date);
  \<^item> \<open>h_gt a b\<close> is \<^verbatim>\<open>a > b\<close> when an operand is a string, an array or an object;
  \<^item> \<open>h_stringify c\<close> is \<^verbatim>\<open>JSON.stringify(c)\<close> for an array of objects \<open>c\<close>.
\<close>

record host =
  h_date :: "jsval \<Rightarrow> int option"
  h_gt :: "jsval \<Rightarrow> jsval \<Rightarrow> bool"
  h_stringify :: "obj list \<Rightarrow> string"

text \<open>TimeClip of a finite number: truncation toward zero, invalid beyond 8.64e15 ms.\<close>

definition TimeClip :: "rat \<Rightarrow> int option" where
  "TimeClip q =
     (if \<bar>q\<bar> > 8640000000000000 then None
      else Some (if q \<ge> 0 then \<lfloor>q\<rfloor> else \<lceil>q\<rceil>))"

text \<open>\<^verbatim>\<open>new Date(v).getTime()\<close>.\<close>

fun Date_getTime :: "host \<Rightarrow> jsval \<Rightarrow> int option" where
  "Date_getTime H JUndefined = None"
| "Date_getTime H JNull = Some 0"
| "Date_getTime H (JBool b) = Some (if b then 1 else 0)"
| "Date_getTime H (JNum q) = TimeClip q"
| "Date_getTime H JNaN = None"
| "Date_getTime H JPosInf = None"
| "Date_getTime H JNegInf = None"
| "Date_getTime H v = h_date H v"

text \<open>\<^verbatim>\<open>a > b\<close> on two time values: false as soon as one is \<^verbatim>\<open>NaN\<close>.\<close>

fun time_gt :: "int option \<Rightarrow> int option \<Rightarrow> bool" where
  "time_gt (Some a) (Some b) = (a > b)"
| "time_gt _ _ = False"

text \<open>ToNumber on a primitive that is not a string; the result is a number.\<close>

fun to_number :: "jsval \<Rightarrow> jsval" where
  "to_number JUndefined = JNaN"
| "to_number JNull = JNum 0"
| "to_number (JBool b) = JNum (if b then 1 else 0)"
| "to_number v = v"

fun num_gt :: "jsval \<Rightarrow> jsval \<Rightarrow> bool" where
  "num_gt (JNum a) (JNum b) = (a > b)"
| "num_gt JPosInf (JNum b) = True"
| "num_gt JPosInf JNegInf = True"
| "num_gt (JNum a) JNegInf = True"
| "num_gt _ _ = False"

fun needs_host :: "jsval \<Rightarrow> bool" where
  "needs_host (JStr _) = True"
| "needs_host (JArr _) = True"
| "needs_host (JObj _) = True"
| "needs_host _ = False"

text \<open>\<^verbatim>\<open>a > b\<close>.\<close>

definition js_gt :: "host \<Rightarrow> jsval \<Rightarrow> jsval \<Rightarrow> bool" where
  "js_gt H a b =
     (if needs_host a \<or> needs_host b then h_gt H a b
      else num_gt (to_number a) (to_number b))"

section \<open>Merge engine (sync-manager.js, mergeProjects)\<close>

datatype strategy = SERVER_WINS | LOCAL_WINS | LATEST_WINS | MERGE | MANUAL

text \<open>\<^verbatim>\<open>new Date(p.updatedAt || 0).getTime()\<close>.\<close>

definition updatedAt_time :: "host \<Rightarrow> obj \<Rightarrow> int option" where
  "updatedAt_time H p =
     Date_getTime H (let u = get_prop p ''updatedAt'' in if truthy u then u else JNum 0)"

text \<open>One round of the \<^verbatim>\<open>Object.keys(localProject).forEach\<close> loop of the field-level merge.\<close>

definition merge_field :: "host \<Rightarrow> obj \<Rightarrow> obj \<Rightarrow> obj \<Rightarrow> string \<Rightarrow> js_error + obj" where
  "merge_field H localProject remoteProject resolvedProject key =
     (if key = ''updatedAt'' then
        Inr (set_prop resolvedProject ''updatedAt''
              (if time_gt (updatedAt_time H localProject) (updatedAt_time H remoteProject)
               then get_prop localProject ''updatedAt''
               else get_prop remoteProject ''updatedAt''))
      else if key = ''lineItems'' then
        (case length_of (get_prop localProject ''lineItems'') of
           Inl e \<Rightarrow> Inl e
         | Inr ll \<Rightarrow>
             (case length_of (get_prop remoteProject ''lineItems'') of
                Inl e \<Rightarrow> Inl e
              | Inr rl \<Rightarrow>
                  Inr (if js_gt H ll rl
                       then set_prop resolvedProject ''lineItems'' (get_prop localProject ''lineItems'')
                       else resolvedProject)))
      else
        Inr (if truthy (get_prop localProject key) \<and> \<not> truthy_prop remoteProject key
             then set_prop resolvedProject key (get_prop localProject key)
             else resolvedProject))"

fun merge_fields :: "host \<Rightarrow> obj \<Rightarrow> obj \<Rightarrow> obj \<Rightarrow> string list \<Rightarrow> js_error + obj" where
  "merge_fields H localProject remoteProject resolvedProject [] = Inr resolvedProject"
| "merge_fields H localProject remoteProject resolvedProject (key # keys) =
     (case merge_field H localProject remoteProject resolvedProject key of
        Inl e \<Rightarrow> Inl e
      | Inr resolved' \<Rightarrow> merge_fields H localProject remoteProject resolved' keys)"

text \<open>
  The conflict branch: \<open>None\<close> is the \<^verbatim>\<open>undefined\<close> that \<^verbatim>\<open>resolvedProject\<close> keeps when
  no strategy branch assigns it.
\<close>

definition resolve :: "host \<Rightarrow> strategy \<Rightarrow> obj \<Rightarrow> obj \<Rightarrow> js_error + obj option" where
  "resolve H strat localProject remoteProject =
     (if strat = LATEST_WINS then
        Inr (Some (if time_gt (updatedAt_time H localProject) (updatedAt_time H remoteProject)
                   then localProject else remoteProject))
      else if strat = MERGE then
        (case merge_fields H localProject remoteProject remoteProject (map fst localProject) of
           Inl e \<Rightarrow> Inl e
         | Inr resolved \<Rightarrow> Inr (Some resolved))
      else Inr None)"

text \<open>\<^verbatim>\<open>{...p, source: tag}\<close>; spreading \<^verbatim>\<open>undefined\<close> contributes no property.\<close>

definition with_source :: "obj option \<Rightarrow> string \<Rightarrow> obj" where
  "with_source p tag = set_prop (case p of None \<Rightarrow> [] | Some r \<Rightarrow> r) ''source'' (JStr tag)"

text \<open>
  A \<^verbatim>\<open>Map\<close> is the list of its entries in insertion order; \<^verbatim>\<open>set\<close> on a key that is
  present keeps the entry in its place.
\<close>

type_synonym project_map = "(jsval \<times> obj) list"

fun Map_get :: "project_map \<Rightarrow> jsval \<Rightarrow> obj option" where
  "Map_get [] k = None"
| "Map_get ((k', v') # pm) k = (if SameValueZero k' k then Some v' else Map_get pm k)"

fun Map_set :: "project_map \<Rightarrow> jsval \<Rightarrow> obj \<Rightarrow> project_map" where
  "Map_set [] k v = [(k, v)]"
| "Map_set ((k', v') # pm) k v =
     (if SameValueZero k' k then (k', v) # pm else (k', v') # Map_set pm k v)"

text \<open>\<^verbatim>\<open>remoteProjects.forEach(project => projectMap.set(project.id, {...project, source: 'remote'}))\<close>.\<close>

fun add_remote :: "project_map \<Rightarrow> obj list \<Rightarrow> project_map" where
  "add_remote pm [] = pm"
| "add_remote pm (project # rest) =
     add_remote (Map_set pm (rec_id project) (with_source (Some project) ''remote'')) rest"

text \<open>\<^verbatim>\<open>localProjects.forEach(localProject => ...)\<close>; an exception leaves the loop.\<close>

fun merge_local :: "host \<Rightarrow> strategy \<Rightarrow> project_map \<Rightarrow> obj list \<Rightarrow> js_error + project_map" where
  "merge_local H strat pm [] = Inr pm"
| "merge_local H strat pm (localProject # rest) =
     (case Map_get pm (rec_id localProject) of
        None \<Rightarrow>
          merge_local H strat
            (Map_set pm (rec_id localProject) (with_source (Some localProject) ''local'')) rest
      | Some remoteProject \<Rightarrow>
          (case resolve H strat localProject remoteProject of
             Inl e \<Rightarrow> Inl e
           | Inr resolvedProject \<Rightarrow>
               merge_local H strat
                 (Map_set pm (rec_id localProject) (with_source resolvedProject ''merged''))
                 rest))"

text \<open>\<^verbatim>\<open>({ source, ...project }) => project\<close>.\<close>

definition strip_source :: "obj \<Rightarrow> obj" where
  "strip_source p = AList.delete ''source'' p"

definition mergeProjects :: "host \<Rightarrow> obj list \<Rightarrow> obj list \<Rightarrow> strategy \<Rightarrow> js_error + obj list" where
  "mergeProjects H localProjects remoteProjects strat =
     (if strat = SERVER_WINS then Inr remoteProjects
      else if strat = LOCAL_WINS then Inr localProjects
      else
        (case merge_local H strat (add_remote [] remoteProjects) localProjects of
           Inl e \<Rightarrow> Inl e
         | Inr projectMap \<Rightarrow> Inr (map (strip_source \<circ> snd) projectMap)))"

text \<open>No two records of a collection have the same id.\<close>

fun unique_keys :: "jsval list \<Rightarrow> bool" where
  "unique_keys [] = True"
| "unique_keys (k # ks) = ((\<forall>k' \<in> set ks. \<not> SameValueZero k k') \<and> unique_keys ks)"

definition unique_ids :: "obj list \<Rightarrow> bool" where
  "unique_ids c = unique_keys (map rec_id c)"



text \<open>
  Two notions for the proofs: a project map whose keys are pairwise different and whose
  every entry is stored under the id of its record; and the project map that the local
  loop leaves under latest-wins, entry by entry, with the local records it appends.
\<close>

definition pm_ok :: "project_map \<Rightarrow> bool" where
  "pm_ok pm \<longleftrightarrow> unique_keys (map fst pm) \<and> (\<forall>(k, v) \<in> set pm. rec_id v = k)"




section \<open>Fingerprint (sync-manager.js, calculateHash)\<close>

text \<open>
  One round of the loop: \<^verbatim>\<open>hash = ((hash << 5) - hash) + char; hash = hash & hash\<close>.
  \<^verbatim>\<open>hash\<close> holds a 32-bit integer after every round, the shift and the last \<^verbatim>\<open>&\<close>
  reduce modulo \<open>2 ^ 32\<close> and the arithmetic in between is exact, so the round is
  arithmetic on 32-bit words.
\<close>

definition hash_round :: "32 word \<Rightarrow> char \<Rightarrow> 32 word" where
  "hash_round hash c = (let h = (push_bit 5 hash - hash) + of_nat (of_char c) in h AND h)"

definition digit36 :: "nat \<Rightarrow> char" where
  "digit36 d = (if d < 10 then char_of (48 + d) else char_of (87 + d))"

fun nat_toString36 :: "nat \<Rightarrow> string" where
  "nat_toString36 n =
     (if n < 36 then [digit36 n] else nat_toString36 (n div 36) @ [digit36 (n mod 36)])"

declare nat_toString36.simps [simp del]

text \<open>\<^verbatim>\<open>n.toString(36)\<close> for an integer \<open>n\<close>.\<close>

definition toString36 :: "int \<Rightarrow> string" where
  "toString36 i = (if i < 0 then CHR ''-'' # nat_toString36 (nat (- i)) else nat_toString36 (nat i))"

text \<open>\<open>None\<close> is an absent collection (\<^verbatim>\<open>null\<close> or \<^verbatim>\<open>undefined\<close>).\<close>

definition calculateHash :: "host \<Rightarrow> obj list option \<Rightarrow> string" where
  "calculateHash H projects =
     (case projects of
        None \<Rightarrow> ''empty''
      | Some ps \<Rightarrow>
          if length ps = 0 then ''empty''
          else toString36 (sint (foldl hash_round 0 (h_stringify H ps))))"

text \<open>Reading a base-36 numeral back, for the proofs about \<open>toString36\<close>.\<close>

definition value36 :: "char \<Rightarrow> nat" where
  "value36 c = (if of_char c < (58::nat) then of_char c - 48 else of_char c - 87)"

definition parse36 :: "string \<Rightarrow> nat" where
  "parse36 s = foldl (\<lambda>a c. 36 * a + value36 c) 0 s"

section \<open>A concrete host for the examples\<close>

text \<open>
  The closed examples below run on \<open>host0\<close>.  Its \<^verbatim>\<open>Date\<close> accepts the date-time
  string format of ECMAScript in the UTC form that \<^verbatim>\<open>toISOString\<close> prints
  (\<^verbatim>\<open>YYYY-MM-DDTHH:mm:ss.sssZ\<close>) and nothing else, its \<^verbatim>\<open>></\<close> compares two strings by
  code units, and its \<^verbatim>\<open>JSON.stringify\<close> covers values without fractional numbers.
\<close>

fun digits_value :: "string \<Rightarrow> nat \<Rightarrow> nat option" where
  "digits_value [] acc = Some acc"
| "digits_value (c # cs) acc =
     (if (48::nat) \<le> of_char c \<and> of_char c \<le> (57::nat)
      then digits_value cs (10 * acc + (of_char c - 48)) else None)"

definition digits_at :: "string \<Rightarrow> nat \<Rightarrow> nat \<Rightarrow> nat option" where
  "digits_at s i n = digits_value (take n (drop i s)) 0"

definition days_in_month :: "nat \<Rightarrow> nat \<Rightarrow> nat" where
  "days_in_month y m =
     (if m = 2 then (if y mod 4 = 0 \<and> (y mod 100 \<noteq> 0 \<or> y mod 400 = 0) then 29 else 28)
      else if m = 4 \<or> m = 6 \<or> m = 9 \<or> m = 11 then 30 else 31)"

text \<open>Days from 1970-01-01 to the given day of the proleptic Gregorian calendar.\<close>

definition days_from_civil :: "int \<Rightarrow> int \<Rightarrow> int \<Rightarrow> int" where
  "days_from_civil y m d =
     (let y' = (if m \<le> 2 then y - 1 else y);
          era = y' div 400;
          yoe = y' - era * 400;
          doy = (153 * (if m > 2 then m - 3 else m + 9) + 2) div 5 + d - 1;
          doe = yoe * 365 + yoe div 4 - yoe div 100 + doy
      in era * 146097 + doe - 719468)"

definition iso_time :: "string \<Rightarrow> int option" where
  "iso_time s =
     (if length s = 24 \<and> s ! 4 = CHR ''-'' \<and> s ! 7 = CHR ''-'' \<and> s ! 10 = CHR ''T''
         \<and> s ! 13 = CHR '':'' \<and> s ! 16 = CHR '':'' \<and> s ! 19 = CHR ''.'' \<and> s ! 23 = CHR ''Z''
      then
        (case (digits_at s 0 4, digits_at s 5 2, digits_at s 8 2, digits_at s 11 2,
               digits_at s 14 2, digits_at s 17 2, digits_at s 20 3) of
           (Some y, Some m, Some d, Some hh, Some mm, Some ss, Some ms) \<Rightarrow>
             if 1 \<le> m \<and> m \<le> 12 \<and> 1 \<le> d \<and> d \<le> days_in_month y m \<and> mm \<le> 59 \<and> ss \<le> 59
                \<and> (hh \<le> 23 \<or> (hh = 24 \<and> mm = 0 \<and> ss = 0 \<and> ms = 0))
             then Some (((days_from_civil (int y) (int m) (int d) * 24 + int hh) * 60 + int mm) * 60000
                        + int ss * 1000 + int ms)
             else None
         | _ \<Rightarrow> None)
      else None)"

fun string_gt :: "string \<Rightarrow> string \<Rightarrow> bool" where
  "string_gt [] _ = False"
| "string_gt (a # as) [] = True"
| "string_gt (a # as) (b # bs) =
     ((of_char a :: nat) > of_char b \<or> (a = b \<and> string_gt as bs))"

definition hex_digit :: "nat \<Rightarrow> char" where
  "hex_digit d = (if d < 10 then char_of (48 + d) else char_of (87 + d))"

definition quote_char :: "char \<Rightarrow> string" where
  "quote_char c =
     (if c = CHR 0x22 then [CHR 0x5C, CHR 0x22]
      else if c = CHR 0x5C then [CHR 0x5C, CHR 0x5C]
      else if c = CHR 0x08 then [CHR 0x5C, CHR ''b'']
      else if c = CHR 0x0C then [CHR 0x5C, CHR ''f'']
      else if c = CHR 0x0A then [CHR 0x5C, CHR ''n'']
      else if c = CHR 0x0D then [CHR 0x5C, CHR ''r'']
      else if c = CHR 0x09 then [CHR 0x5C, CHR ''t'']
      else if (of_char c :: nat) < 32 then
        [CHR 0x5C, CHR ''u'', CHR ''0'', CHR ''0'',
         hex_digit (of_char c div 16), hex_digit (of_char c mod 16)]
      else [c])"

definition QuoteJSONString :: "string \<Rightarrow> string" where
  "QuoteJSONString s = CHR 0x22 # concat (map quote_char s) @ [CHR 0x22]"

fun join :: "string \<Rightarrow> string list \<Rightarrow> string" where
  "join sep [] = []"
| "join sep [x] = x"
| "join sep (x # y # ys) = x @ sep @ join sep (y # ys)"

fun decimal :: "nat \<Rightarrow> string" where
  "decimal n = (if n < 10 then [char_of (48 + n)] else decimal (n div 10) @ [char_of (48 + n mod 10)])"

declare decimal.simps [simp del]

text \<open>
  The text of a value: \<open>Omitted\<close> for \<^verbatim>\<open>undefined\<close> (an array prints it as \<^verbatim>\<open>null\<close>, an
  object leaves the property out), \<open>Unmodelled\<close> for a value with a fractional number or
  an integer of 22 digits or more.
\<close>

datatype jtext = Text string | Omitted | Unmodelled

definition number_text :: "rat \<Rightarrow> jtext" where
  "number_text q =
     (if q = of_int \<lfloor>q\<rfloor> \<and> \<bar>q\<bar> < 10 ^ 21
      then Text (if q < 0 then CHR ''-'' # decimal (nat (- \<lfloor>q\<rfloor>)) else decimal (nat \<lfloor>q\<rfloor>))
      else Unmodelled)"

definition array_text :: "jtext list \<Rightarrow> jtext" where
  "array_text ts =
     (if Unmodelled \<in> set ts then Unmodelled
      else Text (''['' @ join '','' (map (\<lambda>t. case t of Text s \<Rightarrow> s | _ \<Rightarrow> ''null'') ts) @ '']''))"

definition object_text :: "(string \<times> jtext) list \<Rightarrow> jtext" where
  "object_text kts =
     (if Unmodelled \<in> snd ` set kts then Unmodelled
      else Text (''{'' @ join '',''
                   (concat (map (\<lambda>(k, t). case t of Text s \<Rightarrow> [QuoteJSONString k @ '':'' @ s] | _ \<Rightarrow> [])
                      kts)) @ ''}''))"

primrec SerializeJSONProperty :: "jsval \<Rightarrow> jtext" where
  "SerializeJSONProperty JUndefined = Omitted"
| "SerializeJSONProperty JNull = Text ''null''"
| "SerializeJSONProperty (JBool b) = Text (if b then ''true'' else ''false'')"
| "SerializeJSONProperty (JNum q) = number_text q"
| "SerializeJSONProperty JNaN = Text ''null''"
| "SerializeJSONProperty JPosInf = Text ''null''"
| "SerializeJSONProperty JNegInf = Text ''null''"
| "SerializeJSONProperty (JStr s) = Text (QuoteJSONString s)"
| "SerializeJSONProperty (JArr xs) = array_text (map SerializeJSONProperty xs)"
| "SerializeJSONProperty (JObj kvs) = object_text (map (map_prod id SerializeJSONProperty) kvs)"

definition host0 :: host where
  "host0 =
     \<lparr> h_date = (\<lambda>v. case v of JStr s \<Rightarrow> iso_time s | _ \<Rightarrow> None),
       h_gt = (\<lambda>a b. case (a, b) of (JStr x, JStr y) \<Rightarrow> string_gt x y | _ \<Rightarrow> False),
       h_stringify = (\<lambda>c. case SerializeJSONProperty (JArr (map JObj c)) of Text s \<Rightarrow> s | _ \<Rightarrow> []) \<rparr>"

section \<open>Retry wrapper and fetch policy (firestore-service.js)\<close>

record retry_config =
  maxRetries :: nat
  initialDelay :: nat
  maxDelay :: nat
  backoffMultiplier :: nat

definition RETRY_CONFIG :: retry_config where
  "RETRY_CONFIG = \<lparr> maxRetries = 3, initialDelay = 1000, maxDelay = 10000, backoffMultiplier = 2 \<rparr>"

definition getBackoffDelay :: "nat \<Rightarrow> nat" where
  "getBackoffDelay attempt =
     (let delay = initialDelay RETRY_CONFIG * backoffMultiplier RETRY_CONFIG ^ attempt
      in min delay (maxDelay RETRY_CONFIG))"

text \<open>
  An error object of the document store; an absent \<^verbatim>\<open>code\<close> or \<^verbatim>\<open>message\<close> is the empty
  string (the code reads both through \<^verbatim>\<open>|| ''\<close> or compares them with non-empty strings).
\<close>

record fs_error =
  err_code :: string
  err_message :: string

text \<open>
  A remote operation is the sequence of its outcomes: \<open>operation k\<close> is what the call
  number \<open>k\<close> (from 0) settles with, \<open>Inl\<close> a thrown error.  A run of the wrapper returns
  the outcome (\<open>Inl None\<close> is \<^verbatim>\<open>throw null\<close>, the initial \<^verbatim>\<open>lastError\<close>), the number of
  calls of the operation and the delays slept, in order.
\<close>

record 'a retry_run =
  outcome :: "fs_error option + 'a"
  calls :: nat
  sleeps :: "nat list"

function executeWithRetry_from ::
  "(nat \<Rightarrow> fs_error + 'a) \<Rightarrow> nat \<Rightarrow> fs_error option \<Rightarrow> nat \<Rightarrow> nat list \<Rightarrow> 'a retry_run" where
  "executeWithRetry_from operation attempt lastError ncalls slept =
     (if attempt \<le> maxRetries RETRY_CONFIG then
        (let slept' = (if attempt > 0 then slept @ [getBackoffDelay (attempt - 1)] else slept) in
         case operation ncalls of
           Inr result \<Rightarrow> \<lparr> outcome = Inr result, calls = ncalls + 1, sleeps = slept' \<rparr>
         | Inl error \<Rightarrow>
             if err_code error = ''permission-denied'' \<or> err_code error = ''unauthenticated''
             then \<lparr> outcome = Inl (Some error), calls = ncalls + 1, sleeps = slept' \<rparr>
             else executeWithRetry_from operation (attempt + 1) (Some error) (ncalls + 1) slept')
      else \<lparr> outcome = Inl lastError, calls = ncalls, sleeps = slept \<rparr>)"
  by pat_completeness auto
termination
  by (relation "measure (\<lambda>(operation, attempt, lastError, ncalls, slept).
        Suc (maxRetries RETRY_CONFIG) - attempt)") auto

declare executeWithRetry_from.simps [simp del]

definition executeWithRetry :: "(nat \<Rightarrow> fs_error + 'a) \<Rightarrow> 'a retry_run" where
  "executeWithRetry operation = executeWithRetry_from operation 0 None 0 []"

text \<open>\<^verbatim>\<open>toLowerCase\<close> on a code unit below 256.\<close>

definition lower_char :: "char \<Rightarrow> char" where
  "lower_char c =
     (let n = (of_char c :: nat)
      in if (65 \<le> n \<and> n \<le> 90) \<or> (192 \<le> n \<and> n \<le> 222 \<and> n \<noteq> 215) then char_of (n + 32) else c)"

definition toLowerCase :: "string \<Rightarrow> string" where
  "toLowerCase s = map lower_char s"

fun startsWith :: "string \<Rightarrow> string \<Rightarrow> bool" where
  "startsWith s [] = True"
| "startsWith [] (c # cs) = False"
| "startsWith (a # as) (c # cs) = (a = c \<and> startsWith as cs)"

fun includes_str :: "string \<Rightarrow> string \<Rightarrow> bool" where
  "includes_str [] needle = (needle = [])"
| "includes_str (a # as) needle = (startsWith (a # as) needle \<or> includes_str as needle)"

definition isOfflineError :: "fs_error option \<Rightarrow> bool" where
  "isOfflineError error =
     (case error of
        None \<Rightarrow> False
      | Some e \<Rightarrow>
          (let code = err_code e; message = toLowerCase (err_message e)
           in code = ''unavailable'' \<or> code = ''offline'' \<or> code = ''failed-precondition''
              \<or> includes_str message ''offline'' \<or> includes_str message ''network''
              \<or> includes_str message ''unavailable''))"

record snapshot =
  snap_exists :: bool
  snap_data :: jsval

record firestore_result =
  fr_success :: bool
  fr_data :: jsval
  fr_error :: "string option"
  fr_fromCache :: bool

text \<open>
  The document store as \<^verbatim>\<open>fetchDocument\<close> meets it: whether \<^verbatim>\<open>getDocument\<close> finds an
  initialised client, what the successive server reads settle with, and what a cache read
  settles with.
\<close>

record store =
  initialized :: bool
  server_get :: "nat \<Rightarrow> fs_error + snapshot"
  cache_get :: "fs_error + snapshot"

datatype read = ServerRead | CacheRead

text \<open>An \<^verbatim>\<open>async\<close> function returns a value or rejects with an exception.\<close>

datatype 'a settled = Returns 'a | Rejects js_error

text \<open>
  The outer \<^verbatim>\<open>catch\<close> of \<^verbatim>\<open>fetchDocument\<close>: \<^verbatim>\<open>error.message || 'Failed to fetch document'\<close>;
  reading \<^verbatim>\<open>message\<close> from \<^verbatim>\<open>null\<close> throws.
\<close>

definition fetch_failed :: "fs_error option \<Rightarrow> firestore_result settled" where
  "fetch_failed error =
     (case error of
        None \<Rightarrow> Rejects TypeError
      | Some e \<Rightarrow>
          Returns \<lparr> fr_success = False, fr_data = JNull,
                    fr_error = Some (if err_message e = [] then ''Failed to fetch document''
                                     else err_message e),
                    fr_fromCache = False \<rparr>)"

text \<open>The result and the reads issued, in order.\<close>

definition fetchDocument :: "store \<Rightarrow> firestore_result settled \<times> read list" where
  "fetchDocument st =
     (if \<not> initialized st then
        (fetch_failed (Some \<lparr> err_code = [],
            err_message = ''Firebase not initialized. Call initializeFirebase() first.'' \<rparr>), [])
      else
        (let run = executeWithRetry (server_get st);
             reads = replicate (calls run) ServerRead
         in case outcome run of
              Inr snapshot \<Rightarrow>
                (Returns (if snap_exists snapshot
                          then \<lparr> fr_success = True, fr_data = snap_data snapshot,
                                 fr_error = None, fr_fromCache = False \<rparr>
                          else \<lparr> fr_success = True, fr_data = JNull,
                                 fr_error = None, fr_fromCache = False \<rparr>), reads)
            | Inl serverError \<Rightarrow>
                if isOfflineError serverError then
                  (case cache_get st of
                     Inr cachedSnapshot \<Rightarrow>
                       if snap_exists cachedSnapshot
                       then (Returns \<lparr> fr_success = True, fr_data = snap_data cachedSnapshot,
                                       fr_error = None, fr_fromCache = True \<rparr>,
                             reads @ [CacheRead])
                       else (fetch_failed serverError, reads @ [CacheRead])
                   | Inl cacheError \<Rightarrow> (fetch_failed serverError, reads @ [CacheRead]))
                else (fetch_failed serverError, reads)))"

section \<open>Sync coordinator and realtime filter (sync-manager.js)\<close>

record metadata =
  md_fromCache :: bool
  md_hasPendingWrites :: bool

record SyncResult =
  sr_success :: bool
  sr_projects :: "obj list"
  sr_error :: "string option"
  sr_fromCache :: bool
  sr_direction :: string

datatype save_result = SaveOk | SaveFailed string

datatype save_event = SaveStart nat | SaveEnd nat

text \<open>What the collaborators answer during one turn of the event loop.\<close>

record env =
  isAuthenticated :: bool
  getUserId :: "string option"
  Date_now :: int
  setItem_throws :: bool

text \<open>
  The module state \<^verbatim>\<open>syncState\<close> (\<open>isSyncing\<close>, \<open>lastSyncTime\<close>, \<open>lastSyncedHash\<close>,
  \<open>syncInProgress\<close>, \<open>syncQueue\<close>, and \<open>realtimeUnsubscribe\<close> as the flag that a
  subscription is held) together with what surrounds it: the activations of \<^verbatim>\<open>syncToCloud\<close>
  suspended at \<^verbatim>\<open>await saveUserProjects(projects)\<close> (caller, collection, hash computed
  before the call), the callbacks handed to \<^verbatim>\<open>setTimeout\<close> and not yet run, local storage,
  whether \<^verbatim>\<open>startRealtimeSync\<close> was given an \<^verbatim>\<open>onUpdate\<close> callback, and the logs: the
  calls and returns of \<^verbatim>\<open>saveUserProjects\<close>, the results handed to the callers, the
  pushes onto \<open>syncQueue\<close>, the status notifications and the calls of \<^verbatim>\<open>onUpdate\<close>.
  An upload request is the number of its caller and the collection.
\<close>

record world =
  isSyncing :: bool
  realtimeUnsubscribe :: bool
  syncInProgress :: bool
  lastSyncTime :: "int option"
  lastSyncedHash :: "string option"
  syncQueue :: "(nat \<times> obj list) list"
  awaiting :: "(nat \<times> obj list \<times> string) list"
  timers :: "(nat \<times> obj list) list"
  localStorage :: "(string \<times> string) list"
  onUpdate :: bool
  saves :: "save_event list"
  results :: "(nat \<times> SyncResult) list"
  pushes :: "nat list"
  notified :: "(string \<times> bool) list"
  updates :: "(obj list \<times> metadata) list"

text \<open>
  The state of a freshly loaded module on which \<^verbatim>\<open>startRealtimeSync\<close> has been called
  with a callback.
\<close>

definition world0 :: world where
  "world0 =
     \<lparr> isSyncing = False, realtimeUnsubscribe = True, syncInProgress = False, lastSyncTime = None, lastSyncedHash = None, syncQueue = [],
       awaiting = [], timers = [], localStorage = [], onUpdate = True, saves = [],
       results = [], pushes = [], notified = [], updates = [] \<rparr>"

definition getStorageKey :: "env \<Rightarrow> string" where
  "getStorageKey e =
     (case getUserId e of
        None \<Rightarrow> ''constructionEstimatorProjects''
      | Some userId \<Rightarrow>
          if userId \<noteq> [] then ''constructionEstimatorProjects:'' @ userId
          else ''constructionEstimatorProjects'')"

definition saveLocalProjects :: "host \<Rightarrow> env \<Rightarrow> obj list \<Rightarrow> world \<Rightarrow> world \<times> bool" where
  "saveLocalProjects H e projects w =
     (if setItem_throws e then (w, False)
      else (w\<lparr> localStorage :=
                 AList.update (getStorageKey e) (h_stringify H projects) (localStorage w) \<rparr>, True))"

text \<open>\<^verbatim>\<open>syncToCloud(projects)\<close> up to its first suspension, for the caller \<open>c\<close>.\<close>

definition syncToCloud_call :: "host \<Rightarrow> env \<Rightarrow> nat \<Rightarrow> obj list \<Rightarrow> world \<Rightarrow> world" where
  "syncToCloud_call H e c projects w =
     (if \<not> isAuthenticated e then
        w\<lparr> results := results w @
              [(c, \<lparr> sr_success = False, sr_projects = [], sr_error = Some ''Not authenticated'',
                     sr_fromCache = False, sr_direction = ''upload'' \<rparr>)] \<rparr>
      else if syncInProgress w then
        w\<lparr> syncQueue := syncQueue w @ [(c, projects)], pushes := pushes w @ [c] \<rparr>
      else
        w\<lparr> syncInProgress := True,
           notified := notified w @ [(''syncing'', True)],
           awaiting := awaiting w @ [(c, projects, calculateHash H (Some projects))],
           saves := saves w @ [SaveStart c] \<rparr>)"

text \<open>The \<^verbatim>\<open>finally\<close> block.\<close>

definition syncToCloud_finally :: "world \<Rightarrow> world" where
  "syncToCloud_finally w =
     (case syncQueue w of
        [] \<Rightarrow> w\<lparr> syncInProgress := False \<rparr>
      | nextSync # rest \<Rightarrow>
          w\<lparr> syncInProgress := False, syncQueue := rest, timers := timers w @ [nextSync] \<rparr>)"

text \<open>
  The rest of \<^verbatim>\<open>syncToCloud\<close>, run when the save awaited by the activation of caller \<open>c\<close>
  settles; nothing happens when no activation of \<open>c\<close> is suspended.
\<close>

definition syncToCloud_resume :: "host \<Rightarrow> env \<Rightarrow> nat \<Rightarrow> save_result \<Rightarrow> world \<Rightarrow> world" where
  "syncToCloud_resume H e c res w =
     (case find (\<lambda>a. fst a = c) (awaiting w) of
        None \<Rightarrow> w
      | Some (c', projects, hash) \<Rightarrow>
          (let w1 = w\<lparr> awaiting := remove1 (c', projects, hash) (awaiting w),
                       saves := saves w @ [SaveEnd c] \<rparr>;
               w2 = (case res of
                       SaveOk \<Rightarrow>
                         (let w' = fst (saveLocalProjects H e projects
                                          (w1\<lparr> lastSyncTime := Some (Date_now e),
                                               lastSyncedHash := Some hash \<rparr>))
                          in w'\<lparr> notified := notified w' @ [(''success'', False)],
                                 results := results w' @
                                   [(c, \<lparr> sr_success = True, sr_projects = projects,
                                          sr_error = None, sr_fromCache = False,
                                          sr_direction = ''upload'' \<rparr>)] \<rparr>)
                     | SaveFailed msg \<Rightarrow>
                         w1\<lparr> notified := notified w1 @ [(''error'', False)],
                             results := results w1 @
                               [(c, \<lparr> sr_success = False, sr_projects = [],
                                      sr_error = Some (if msg = [] then ''Sync failed'' else msg),
                                      sr_fromCache = False, sr_direction = ''upload'' \<rparr>)] \<rparr>)
           in syncToCloud_finally w2))"

text \<open>
  A timer fires: the queued callback \<^verbatim>\<open>() => syncToCloud(projects).then(resolve)\<close> runs,
  and the result of that call goes to the caller who was queued.
\<close>

definition timer_fires :: "host \<Rightarrow> env \<Rightarrow> world \<Rightarrow> world" where
  "timer_fires H e w =
     (case timers w of
        [] \<Rightarrow> w
      | (c, projects) # rest \<Rightarrow> syncToCloud_call H e c projects (w\<lparr> timers := rest \<rparr>))"

text \<open>The snapshot callback that \<^verbatim>\<open>startRealtimeSync\<close> hands to the subscription.\<close>

definition on_snapshot :: "host \<Rightarrow> env \<Rightarrow> obj list \<Rightarrow> metadata \<Rightarrow> world \<Rightarrow> world" where
  "on_snapshot H e projects md w =
     (if syncInProgress w then w
      else
        (let newHash = calculateHash H (Some projects) in
         if Some newHash = lastSyncedHash w then w
         else
           (let w' = fst (saveLocalProjects H e projects w);
                w'' = w'\<lparr> lastSyncedHash := Some newHash, lastSyncTime := Some (Date_now e) \<rparr>
            in if onUpdate w'' then w''\<lparr> updates := updates w'' @ [(projects, md)] \<rparr> else w'')))"

text \<open>
  \<^verbatim>\<open>stopRealtimeSync\<close> gives the subscription up when one is held (the program receives
  no snapshot until the next \<^verbatim>\<open>startRealtimeSync\<close>), and \<^verbatim>\<open>clearSyncState\<close> resets the module
  state.  Neither looks at the activations that are suspended at a save nor at the timers:
  those stay as they are.
\<close>

definition stopRealtimeSync :: "world \<Rightarrow> world" where
  "stopRealtimeSync w = (if realtimeUnsubscribe w then w\<lparr> realtimeUnsubscribe := False \<rparr> else w)"

definition clearSyncState :: "world \<Rightarrow> world" where
  "clearSyncState w =
     (stopRealtimeSync w)
       \<lparr> isSyncing := False, lastSyncTime := None, lastSyncedHash := None,
         syncInProgress := False, syncQueue := [] \<rparr>"

text \<open>
  The events of a run: a caller invokes \<^verbatim>\<open>syncToCloud\<close>, the save awaited for a caller
  settles, the oldest timer fires, the subscription delivers a snapshot, a caller invokes
  \<^verbatim>\<open>clearSyncState\<close>.  Status listeners are recorded in the log and not run.
\<close>

datatype event =
    Upload nat "obj list"
  | SaveSettles nat save_result
  | TimerFires
  | Snapshot "obj list" metadata
  | ClearSyncState

fun step :: "host \<Rightarrow> world \<Rightarrow> env \<times> event \<Rightarrow> world" where
  "step H w (e, Upload c projects) = syncToCloud_call H e c projects w"
| "step H w (e, SaveSettles c res) = syncToCloud_resume H e c res w"
| "step H w (e, TimerFires) = timer_fires H e w"
| "step H w (e, Snapshot projects md) = on_snapshot H e projects md w"
| "step H w (e, ClearSyncState) = clearSyncState w"

definition run :: "host \<Rightarrow> (env \<times> event) list \<Rightarrow> world \<Rightarrow> world" where
  "run H trace w = foldl (step H) w trace"

text \<open>The saves open after a log of calls and returns, and whether two were ever open at once.\<close>

fun log_save :: "nat list \<Rightarrow> save_event \<Rightarrow> nat list" where
  "log_save opn (SaveStart c) = opn @ [c]"
| "log_save opn (SaveEnd c) = remove1 c opn"

fun never_overlap :: "nat list \<Rightarrow> save_event list \<Rightarrow> bool" where
  "never_overlap opn [] = True"
| "never_overlap opn (ev # evs) =
     (length (log_save opn ev) \<le> 1 \<and> never_overlap (log_save opn ev) evs)"

text \<open>The callers in the order their saves were started.\<close>

fun started :: "save_event list \<Rightarrow> nat list" where
  "started [] = []"
| "started (SaveStart c # evs) = c # started evs"
| "started (SaveEnd c # evs) = started evs"

text \<open>
  Single flight: at most one activation is suspended at the save, the flag
  \<open>syncInProgress\<close> is set exactly while one is, and the log of saves never has two saves
  open at once.
\<close>

definition single_flight :: "world \<Rightarrow> bool" where
  "single_flight w \<longleftrightarrow>
     length (awaiting w) \<le> 1
     \<and> (syncInProgress w \<longleftrightarrow> awaiting w \<noteq> [])
     \<and> never_overlap [] (saves w)
     \<and> foldl log_save [] (saves w) = map fst (awaiting w)"

text \<open>An authenticated turn, and two collections, for the examples.\<close>

definition env0 :: env where
  "env0 = \<lparr> isAuthenticated = True, getUserId = Some ''u1'', Date_now = 1700000000000,
            setItem_throws = False \<rparr>"

definition projectsA :: "obj list" where
  "projectsA = [[(''id'', JStr ''p1''), (''name'', JStr ''Kitchen'')]]"

definition projectsB :: "obj list" where
  "projectsB = [[(''id'', JStr ''p1''), (''name'', JStr ''Kitchen''), (''area'', JNum 12)]]"

text \<open>A run in which \<^verbatim>\<open>clearSyncState\<close> is never called.\<close>

definition clear_free :: "(env \<times> event) list \<Rightarrow> bool" where
  "clear_free trace \<longleftrightarrow> ClearSyncState \<notin> snd ` set trace"

text \<open>
  A run with four uploads: request 2 arrives while upload 1 is in progress; after upload 1
  has completed and before the timer of request 2 fires, request 3 arrives and starts at
  once, and request 4 arrives while upload 3 is in progress.
\<close>

definition overtaking_trace :: "(env \<times> event) list" where
  "overtaking_trace =
     map (Pair env0)
       [Upload 1 projectsA, Upload 2 projectsB, SaveSettles 1 SaveOk,
        Upload 3 projectsA, Upload 4 projectsB, TimerFires, SaveSettles 3 SaveOk,
        TimerFires, SaveSettles 4 SaveOk, TimerFires, SaveSettles 2 SaveOk]"

section \<open>Properties of the merge engine\<close>

lemma strip_source_no_source: "''source'' \<notin> fst ` set (strip_source p)"
  by (simp add: strip_source_def delete_notin_dom)

text \<open>
  Claim C10.  For every strategy other than \<open>server_wins\<close> and \<open>local_wins\<close>, no record
  of the output of \<open>mergeProjects\<close> has a property named \<^verbatim>\<open>source\<close>: the provenance tag is
  stripped from every output record, and with it a \<^verbatim>\<open>source\<close> property that an input
  record carried.  Under \<open>server_wins\<close> and \<open>local_wins\<close> the chosen input collection is
  returned as it is, so such a property stays.
\<close>

theorem mergeProjects_strips_source:
  "(strat \<noteq> SERVER_WINS \<and> strat \<noteq> LOCAL_WINS
      \<and> mergeProjects H localProjects remoteProjects strat = Inr out
      \<longrightarrow> (\<forall>p \<in> set out. ''source'' \<notin> fst ` set p))
   \<and> mergeProjects H localProjects remoteProjects SERVER_WINS = Inr remoteProjects
   \<and> mergeProjects H localProjects remoteProjects LOCAL_WINS = Inr localProjects"
proof (intro conjI impI)
  assume a: "strat \<noteq> SERVER_WINS \<and> strat \<noteq> LOCAL_WINS
      \<and> mergeProjects H localProjects remoteProjects strat = Inr out"
  show "\<forall>p \<in> set out. ''source'' \<notin> fst ` set p"
  proof (cases "merge_local H strat (add_remote [] remoteProjects) localProjects")
    case (Inl e)
    with a show ?thesis by (auto simp: mergeProjects_def)
  next
    case (Inr pm)
    with a have "out = map (strip_source \<circ> snd) pm" by (auto simp: mergeProjects_def)
    then show ?thesis by (simp add: strip_source_no_source)
  qed
qed (simp_all add: mergeProjects_def)

theorem mergeProjects_strips_source_witness:
  "mergeProjects host0
     [[(''id'', JStr ''p1''), (''source'', JStr ''import''), (''updatedAt'', JNum 5)],
      [(''id'', JStr ''p3''), (''source'', JNum 1)]]
     [[(''id'', JStr ''p2''), (''source'', JStr ''web'')],
      [(''id'', JStr ''p1''), (''updatedAt'', JNum 4)]] LATEST_WINS
   = Inr [[(''id'', JStr ''p2'')], [(''id'', JStr ''p1''), (''updatedAt'', JNum 5)],
          [(''id'', JStr ''p3'')]]
   \<and> list_all (\<lambda>p. ''source'' \<notin> fst ` set p)
        [[(''id'', JStr ''p2'')], [(''id'', JStr ''p1''), (''updatedAt'', JNum 5)],
         [(''id'', JStr ''p3'')]]"
proof -
  have e: "mergeProjects host0
     [[(''id'', JStr ''p1''), (''source'', JStr ''import''), (''updatedAt'', JNum 5)],
      [(''id'', JStr ''p3''), (''source'', JNum 1)]]
     [[(''id'', JStr ''p2''), (''source'', JStr ''web'')],
      [(''id'', JStr ''p1''), (''updatedAt'', JNum 4)]] LATEST_WINS
   = Inr [[(''id'', JStr ''p2'')], [(''id'', JStr ''p1''), (''updatedAt'', JNum 5)],
          [(''id'', JStr ''p3'')]]"
    by code_simp
  from mergeProjects_strips_source
         [of LATEST_WINS host0 _ _ _, THEN conjunct1, rule_format, OF conjI [OF _ conjI [OF _ e]]]
  show ?thesis using e by simp
qed

text \<open>
  Claim C4, at the input where the code fails.  Under the \<open>merge\<close> strategy, a local record
  with a \<^verbatim>\<open>lineItems\<close> property meets a remote record of the same id without one:
  \<^verbatim>\<open>remoteProject.lineItems.length\<close> reads \<^verbatim>\<open>length\<close> from \<^verbatim>\<open>undefined\<close>, and
  \<open>mergeProjects\<close> throws a TypeError instead of returning a collection.
\<close>

theorem merge_missing_lineItems_throws:
  "mergeProjects host0
     [[(''id'', JStr ''p1''), (''lineItems'', JArr [])]] [[(''id'', JStr ''p1'')]] MERGE
   = Inl TypeError"
  by code_simp

text \<open>
  The \<open>merge\<close> strategy is the only one under which \<open>mergeProjects\<close> can throw.
\<close>

lemma merge_local_returns:
  "strat \<noteq> MERGE \<Longrightarrow> \<exists>pm'. merge_local H strat pm localProjects = Inr pm'"
proof (induction localProjects arbitrary: pm)
  case Nil
  then show ?case by simp
next
  case (Cons l ls)
  then show ?case
    by (cases "Map_get pm (rec_id l)") (auto simp: resolve_def)
qed

lemma mergeProjects_returns:
  "strat \<noteq> MERGE \<Longrightarrow> \<exists>out. mergeProjects H localProjects remoteProjects strat = Inr out"
  using merge_local_returns [of strat H "add_remote [] remoteProjects" localProjects]
  by (auto simp: mergeProjects_def)

text \<open>
  Claim C5, at the input where the code fails.  Under the \<open>manual\<close> strategy a record
  present on both sides comes out as one record without any property: neither version is
  handed to the caller.
\<close>

theorem manual_conflict_gives_empty_record:
  "mergeProjects host0
     [[(''id'', JStr ''p1''), (''name'', JStr ''local name'')]]
     [[(''id'', JStr ''p1''), (''name'', JStr ''remote name'')]] MANUAL
   = Inr [[]]"
  by code_simp

subsection \<open>Ids of the merged collection\<close>



lemma get_prop_with_source:
  "k \<noteq> ''source'' \<Longrightarrow> get_prop (with_source (Some p) tag) k = get_prop p k"
  by (simp add: get_prop_def with_source_def set_prop_def update_conv')

lemma get_prop_strip_source:
  "k \<noteq> ''source'' \<Longrightarrow> get_prop (strip_source p) k = get_prop p k"
  by (simp add: get_prop_def strip_source_def delete_conv')

lemma rec_id_with_source: "rec_id (with_source (Some p) tag) = rec_id p"
  by (simp add: rec_id_def get_prop_with_source)

lemma rec_id_strip_source: "rec_id (strip_source p) = rec_id p"
  by (simp add: rec_id_def get_prop_strip_source)



lemma unique_keys_snoc:
  "unique_keys (ks @ [k]) \<longleftrightarrow> unique_keys ks \<and> (\<forall>k' \<in> set ks. \<not> SameValueZero k' k)"
  by (induction ks) auto

lemma Map_get_None: "Map_get pm k = None \<longleftrightarrow> (\<forall>k' \<in> fst ` set pm. \<not> SameValueZero k' k)"
  by (induction pm) (auto split: if_splits)

lemma Map_get_Some: "Map_get pm k = Some v \<Longrightarrow> (k, v) \<in> set pm \<and> is_prim k"
  by (induction pm) (auto simp: SameValueZero_def split: if_splits)

lemma Map_set_absent: "Map_get pm k = None \<Longrightarrow> Map_set pm k v = pm @ [(k, v)]"
  by (induction pm) (auto split: if_splits)

lemma Map_set_keys_present: "Map_get pm k = Some r \<Longrightarrow> map fst (Map_set pm k v) = map fst pm"
  by (induction pm) (auto split: if_splits)

lemma Map_set_entries:
  "(k', v') \<in> set (Map_set pm k v) \<Longrightarrow> (k', v') \<in> set pm \<or> (k' = k \<and> v' = v)"
  by (induction pm) (auto simp: SameValueZero_def split: if_splits)


lemma pm_ok_Map_set: 
  assumes "pm_ok pm" "rec_id v = k"
  shows "pm_ok (Map_set pm k v)"
proof (cases "Map_get pm k")
  case None
  with assms show ?thesis
    by (auto simp: pm_ok_def Map_set_absent unique_keys_snoc Map_get_None)
next
  case (Some r)
  with assms show ?thesis
    using Map_set_entries [of _ _ pm k v]
    by (fastforce simp: pm_ok_def Map_set_keys_present)
qed

lemma pm_ok_add_remote: "pm_ok pm \<Longrightarrow> pm_ok (add_remote pm remoteProjects)"
  by (induction remoteProjects arbitrary: pm) (simp_all add: pm_ok_Map_set rec_id_with_source)

lemma rec_id_set_prop:
  "rec_id (set_prop r k v) = (if k = ''id'' then v else rec_id r)"
  by (simp add: rec_id_def get_prop_def set_prop_def update_conv')

lemma merge_field_rec_id:
  assumes "merge_field H l r res key = Inr res'" "rec_id res = rec_id l"
  shows "rec_id res' = rec_id l"
  using assms
  by (auto simp: merge_field_def rec_id_set_prop rec_id_def [symmetric]
        split: if_splits sum.splits)

lemma merge_fields_rec_id:
  "merge_fields H l r res keys = Inr res' \<Longrightarrow> rec_id res = rec_id l \<Longrightarrow> rec_id res' = rec_id l"
proof (induction keys arbitrary: res)
  case Nil
  then show ?case by simp
next
  case (Cons key keys)
  then show ?case
    by (auto split: sum.splits dest: merge_field_rec_id)
qed

lemma resolve_rec_id:
  assumes "resolve H strat l r = Inr (Some res)" "rec_id r = rec_id l"
  shows "rec_id res = rec_id l"
  using assms
  by (auto simp: resolve_def split: if_splits sum.splits dest: merge_fields_rec_id)

lemma resolve_not_manual:
  "strat = LATEST_WINS \<or> strat = MERGE \<Longrightarrow> resolve H strat l r = Inr x \<Longrightarrow> x \<noteq> None"
  by (auto simp: resolve_def split: if_splits sum.splits)

lemma pm_ok_merge_local:
  assumes "strat = LATEST_WINS \<or> strat = MERGE"
  shows "pm_ok pm \<Longrightarrow> merge_local H strat pm localProjects = Inr pm' \<Longrightarrow> pm_ok pm'"
proof (induction localProjects arbitrary: pm)
  case Nil
  then show ?case by simp
next
  case (Cons l ls)
  show ?case
  proof (cases "Map_get pm (rec_id l)")
    case None
    with Cons.prems have "merge_local H strat (Map_set pm (rec_id l) (with_source (Some l) ''local'')) ls = Inr pm'"
      by simp
    moreover have "pm_ok (Map_set pm (rec_id l) (with_source (Some l) ''local''))"
      using Cons.prems(1) by (simp add: pm_ok_Map_set rec_id_with_source)
    ultimately show ?thesis by (rule Cons.IH [rotated])
  next
    case (Some r)
    with Cons.prems obtain x where x: "resolve H strat l r = Inr x"
      and m: "merge_local H strat (Map_set pm (rec_id l) (with_source x ''merged'')) ls = Inr pm'"
      by (auto split: sum.splits)
    from x assms obtain res where res: "x = Some res" using resolve_not_manual by blast
    from Some have "(rec_id l, r) \<in> set pm" by (simp add: Map_get_Some)
    with Cons.prems(1) have "rec_id r = rec_id l" by (auto simp: pm_ok_def)
    with x res have "rec_id res = rec_id l" using resolve_rec_id by blast
    then have "pm_ok (Map_set pm (rec_id l) (with_source x ''merged''))"
      using Cons.prems(1) res by (simp add: pm_ok_Map_set rec_id_with_source)
    with m show ?thesis by (rule Cons.IH [rotated])
  qed
qed

lemma pm_ok_ids: "pm_ok pm \<Longrightarrow> map rec_id (map (strip_source \<circ> snd) pm) = map fst pm"
  by (auto simp: pm_ok_def rec_id_strip_source)

text \<open>
  Claim C1, as the code has it.  Whenever \<open>mergeProjects\<close> returns a collection under a
  strategy other than \<open>manual\<close>, no two records of it have the same id, provided that under
  \<open>server_wins\<close> the remote collection and under \<open>local_wins\<close> the local collection has
  that property (these two strategies return the input as it is).  Under \<open>latest_wins\<close>
  and \<open>merge\<close> nothing is asked of the inputs.
\<close>

theorem mergeProjects_unique_ids:
  assumes "mergeProjects H localProjects remoteProjects strat = Inr out"
    and "strat \<noteq> MANUAL"
    and "strat = SERVER_WINS \<longrightarrow> unique_ids remoteProjects"
    and "strat = LOCAL_WINS \<longrightarrow> unique_ids localProjects"
  shows "unique_ids out"
proof (cases "strat = SERVER_WINS \<or> strat = LOCAL_WINS")
  case True
  with assms show ?thesis by (auto simp: mergeProjects_def)
next
  case False
  with assms(2) have s: "strat = LATEST_WINS \<or> strat = MERGE" by (cases strat) auto
  from False assms(1) obtain pm where pm: "merge_local H strat (add_remote [] remoteProjects) localProjects = Inr pm"
    and out: "out = map (strip_source \<circ> snd) pm"
    by (auto simp: mergeProjects_def split: sum.splits)
  have "pm_ok (add_remote [] remoteProjects)"
    by (rule pm_ok_add_remote) (simp add: pm_ok_def)
  with s pm have "pm_ok pm" using pm_ok_merge_local by blast
  then show ?thesis
    unfolding out unique_ids_def by (simp only: pm_ok_ids) (simp add: pm_ok_def)
qed

theorem mergeProjects_unique_ids_witness:
  "mergeProjects host0
     [[(''id'', JStr ''p1''), (''name'', JStr ''Kitchen''),
       (''updatedAt'', JStr ''2024-01-02T00:00:00.000Z''), (''lineItems'', JArr [JNum 1, JNum 2])],
      [(''id'', JStr ''p3''), (''name'', JStr ''Garage'')]]
     [[(''id'', JStr ''p2''), (''name'', JStr ''Roof'')],
      [(''id'', JStr ''p1''), (''name'', JStr ''''),
       (''updatedAt'', JStr ''2024-01-01T00:00:00.000Z''), (''lineItems'', JArr [JNum 1])]]
     MERGE
   = Inr [[(''id'', JStr ''p2''), (''name'', JStr ''Roof'')],
          [(''id'', JStr ''p1''), (''name'', JStr ''Kitchen''),
           (''updatedAt'', JStr ''2024-01-02T00:00:00.000Z''),
           (''lineItems'', JArr [JNum 1, JNum 2])],
          [(''id'', JStr ''p3''), (''name'', JStr ''Garage'')]]
   \<and> unique_ids
       [[(''id'', JStr ''p2''), (''name'', JStr ''Roof'')],
        [(''id'', JStr ''p1''), (''name'', JStr ''Kitchen''),
         (''updatedAt'', JStr ''2024-01-02T00:00:00.000Z''),
         (''lineItems'', JArr [JNum 1, JNum 2])],
        [(''id'', JStr ''p3''), (''name'', JStr ''Garage'')]]"
proof -
  have e: "mergeProjects host0
     [[(''id'', JStr ''p1''), (''name'', JStr ''Kitchen''),
       (''updatedAt'', JStr ''2024-01-02T00:00:00.000Z''), (''lineItems'', JArr [JNum 1, JNum 2])],
      [(''id'', JStr ''p3''), (''name'', JStr ''Garage'')]]
     [[(''id'', JStr ''p2''), (''name'', JStr ''Roof'')],
      [(''id'', JStr ''p1''), (''name'', JStr ''''),
       (''updatedAt'', JStr ''2024-01-01T00:00:00.000Z''), (''lineItems'', JArr [JNum 1])]]
     MERGE
   = Inr [[(''id'', JStr ''p2''), (''name'', JStr ''Roof'')],
          [(''id'', JStr ''p1''), (''name'', JStr ''Kitchen''),
           (''updatedAt'', JStr ''2024-01-02T00:00:00.000Z''),
           (''lineItems'', JArr [JNum 1, JNum 2])],
          [(''id'', JStr ''p3''), (''name'', JStr ''Garage'')]]"
    by code_simp
  from mergeProjects_unique_ids [OF e] have "unique_ids
       [[(''id'', JStr ''p2''), (''name'', JStr ''Roof'')],
        [(''id'', JStr ''p1''), (''name'', JStr ''Kitchen''),
         (''updatedAt'', JStr ''2024-01-02T00:00:00.000Z''),
         (''lineItems'', JArr [JNum 1, JNum 2])],
        [(''id'', JStr ''p3''), (''name'', JStr ''Garage'')]]"
    by simp
  with e show ?thesis by (rule conjI)
qed

text \<open>
  Claim C1, as stated, fails.  Under \<open>server_wins\<close> a remote collection with two records
  of one id is returned as it is.  Under \<open>manual\<close> two collections with the ids
  \<^verbatim>\<open>p1\<close> and \<^verbatim>\<open>p2\<close> give two records without properties, both with the id
  \<^verbatim>\<open>undefined\<close>.
\<close>

theorem mergeProjects_duplicate_ids:
  "mergeProjects host0 []
     [[(''id'', JStr ''p1''), (''name'', JStr ''Kitchen'')],
      [(''id'', JStr ''p1''), (''name'', JStr ''Roof'')]] SERVER_WINS
   = Inr [[(''id'', JStr ''p1''), (''name'', JStr ''Kitchen'')],
          [(''id'', JStr ''p1''), (''name'', JStr ''Roof'')]]
   \<and> \<not> unique_ids [[(''id'', JStr ''p1''), (''name'', JStr ''Kitchen'')],
                     [(''id'', JStr ''p1''), (''name'', JStr ''Roof'')]]
   \<and> unique_ids [[(''id'', JStr ''p1'')], [(''id'', JStr ''p2'')]]
   \<and> mergeProjects host0 [[(''id'', JStr ''p1'')], [(''id'', JStr ''p2'')]]
         [[(''id'', JStr ''p1'')], [(''id'', JStr ''p2'')]] MANUAL
       = Inr [[], []]
   \<and> \<not> unique_ids [[], []]"
  by code_simp

subsection \<open>Latest-wins\<close>












section \<open>Properties of the fingerprint\<close>

lemma value36_digit36: "d < 36 \<Longrightarrow> value36 (digit36 d) = d"
  by (auto simp: value36_def digit36_def)

lemma parse36_snoc: "parse36 (s @ [c]) = 36 * parse36 s + value36 c"
  by (simp add: parse36_def)

lemma nat_toString36_step:
  "36 \<le> n \<Longrightarrow> nat_toString36 n = nat_toString36 (n div 36) @ [digit36 (n mod 36)]"
  by (subst nat_toString36.simps) simp

lemma nat_toString36_digit: "n < 36 \<Longrightarrow> nat_toString36 n = [digit36 n]"
  by (subst nat_toString36.simps) simp

lemma parse36_toString36: "parse36 (nat_toString36 n) = n"
proof (induction n rule: nat_toString36.induct)
  case (1 n)
  show ?case
  proof (cases "n < 36")
    case True
    then show ?thesis by (simp add: parse36_def value36_digit36 nat_toString36_digit)
  next
    case False
    with 1 have "parse36 (nat_toString36 (n div 36)) = n div 36" by simp
    with False show ?thesis
      by (simp add: nat_toString36_step parse36_snoc value36_digit36)
  qed
qed

lemma nat_toString36_empty: "nat_toString36 24574534 = ''empty''"
proof -
  have "[char_of (101::nat), char_of (109::nat), char_of (112::nat), char_of (116::nat),
         char_of (121::nat)] = ''empty''"
    by code_simp
  then show ?thesis
    by (simp add: nat_toString36_step nat_toString36_digit digit36_def)
qed

lemma parse36_empty: "parse36 ''empty'' = 24574534"
  by (simp add: parse36_def value36_def)

lemma toString36_empty_iff: "toString36 i = ''empty'' \<longleftrightarrow> i = 24574534"
proof
  assume a: "toString36 i = ''empty''"
  show "i = 24574534"
  proof (cases "i < 0")
    case True
    with a show ?thesis by (simp add: toString36_def)
  next
    case False
    with a have "nat_toString36 (nat i) = ''empty''" by (simp add: toString36_def)
    then have "parse36 (nat_toString36 (nat i)) = parse36 ''empty''" by simp
    then have "nat i = 24574534" by (simp only: parse36_toString36 parse36_empty)
    with False show ?thesis by simp
  qed
next
  assume "i = 24574534"
  then show "toString36 i = ''empty''"
    using nat_toString36_empty by (simp add: toString36_def)
qed

text \<open>
  Claim C9, as the code has it.  \<open>calculateHash\<close> is a function of the collection (and of
  the host's \<^verbatim>\<open>JSON.stringify\<close>): equal collections give equal fingerprints.  The absent
  and the empty collection map to \<^verbatim>\<open>'empty'\<close>.  A non-empty collection maps to the
  base-36 numeral of the 32-bit hash of its JSON text, and that numeral is \<^verbatim>\<open>'empty'\<close>
  exactly when the hash is 24574534: the sentinel differs from the fingerprint of every
  non-empty collection whose hash is another number.
\<close>

theorem calculateHash_sentinel:
  "calculateHash H None = ''empty''
   \<and> calculateHash H (Some []) = ''empty''
   \<and> (c = c' \<longrightarrow> calculateHash H c = calculateHash H c')
   \<and> (ps \<noteq> [] \<longrightarrow>
        (calculateHash H (Some ps) = ''empty''
           \<longleftrightarrow> sint (foldl hash_round 0 (h_stringify H ps)) = 24574534))"
  by (simp add: calculateHash_def toString36_empty_iff)

theorem calculateHash_sentinel_witness:
  "calculateHash host0 None = ''empty''
   \<and> calculateHash host0 (Some []) = ''empty''
   \<and> sint (foldl hash_round 0 (h_stringify host0 [[(''id'', JStr ''p1''), (''name'', JStr ''Kitchen'')]])) \<noteq> 24574534
   \<and> calculateHash host0 (Some [[(''id'', JStr ''p1''), (''name'', JStr ''Kitchen'')]]) \<noteq> ''empty''"
proof -
  have v: "sint (foldl hash_round 0 (h_stringify host0 [[(''id'', JStr ''p1''), (''name'', JStr ''Kitchen'')]])) \<noteq> 24574534"
    by code_simp
  have n: "[[(''id'', JStr ''p1''), (''name'', JStr ''Kitchen'')]] \<noteq> []" by simp
  show ?thesis
    using calculateHash_sentinel [of host0 None None "[[(''id'', JStr ''p1''), (''name'', JStr ''Kitchen'')]]"] v n
    by blast
qed

text \<open>
  Claim C9, as stated, fails: the non-empty collection
  \<^verbatim>\<open>[{"id":"p1","name":"bfuupuz"}]\<close> has the fingerprint of the empty collection.
\<close>

theorem calculateHash_sentinel_collision:
  "[[(''id'', JStr ''p1''), (''name'', JStr ''bfuupuz'')]] \<noteq> []
   \<and> calculateHash host0 (Some [[(''id'', JStr ''p1''), (''name'', JStr ''bfuupuz'')]])
       = calculateHash host0 (Some [])"
proof -
  have "sint (foldl hash_round 0
          (h_stringify host0 [[(''id'', JStr ''p1''), (''name'', JStr ''bfuupuz'')]])) = 24574534"
    by code_simp
  then show ?thesis
    by (simp add: calculateHash_def toString36_empty_iff)
qed

section \<open>Properties of the retry wrapper and of the fetch policy\<close>

lemma getBackoffDelay_eq: "getBackoffDelay k = min (1000 * 2 ^ k) 10000"
  by (simp add: getBackoffDelay_def RETRY_CONFIG_def)

lemma retry_step:
  "attempt \<le> 3 \<Longrightarrow> operation n = Inl e \<Longrightarrow> err_code e \<noteq> ''permission-denied''
     \<Longrightarrow> err_code e \<noteq> ''unauthenticated''
     \<Longrightarrow> executeWithRetry_from operation attempt le n sl =
         executeWithRetry_from operation (Suc attempt) (Some e) (Suc n)
           (if attempt > 0 then sl @ [getBackoffDelay (attempt - 1)] else sl)"
  by (subst executeWithRetry_from.simps) (simp add: RETRY_CONFIG_def)

lemma retry_done:
  "3 < attempt \<Longrightarrow> executeWithRetry_from operation attempt le n sl =
     \<lparr> outcome = Inl le, calls = n, sleeps = sl \<rparr>"
  by (subst executeWithRetry_from.simps) (simp add: RETRY_CONFIG_def)

lemma retry_exhausted:
  assumes "\<forall>k. \<exists>e. operation k = Inl e \<and> err_code e \<noteq> ''permission-denied''
             \<and> err_code e \<noteq> ''unauthenticated''"
  shows "\<exists>e. operation 3 = Inl e \<and> executeWithRetry operation =
           \<lparr> outcome = Inl (Some e), calls = 4, sleeps = [1000, 2000, 4000] \<rparr>"
proof -
  have n3: "(3::nat) = Suc (Suc (Suc 0))" and n4: "(4::nat) = Suc (Suc (Suc (Suc 0)))"
    by simp_all
  from assms obtain e0 where e0: "operation 0 = Inl e0"
    "err_code e0 \<noteq> ''permission-denied''" "err_code e0 \<noteq> ''unauthenticated''" by blast
  from assms obtain e1 where e1: "operation (Suc 0) = Inl e1"
    "err_code e1 \<noteq> ''permission-denied''" "err_code e1 \<noteq> ''unauthenticated''" by blast
  from assms obtain e2 where e2: "operation (Suc (Suc 0)) = Inl e2"
    "err_code e2 \<noteq> ''permission-denied''" "err_code e2 \<noteq> ''unauthenticated''" by blast
  from assms obtain e3 where e3: "operation (Suc (Suc (Suc 0))) = Inl e3"
    "err_code e3 \<noteq> ''permission-denied''" "err_code e3 \<noteq> ''unauthenticated''" by blast
  have "executeWithRetry operation = executeWithRetry_from operation (Suc 0) (Some e0) (Suc 0) []"
    unfolding executeWithRetry_def
    by (subst retry_step [where e = e0]) (simp_all add: e0)
  also have "\<dots> = executeWithRetry_from operation (Suc (Suc 0)) (Some e1) (Suc (Suc 0)) [1000]"
    by (subst retry_step [where e = e1]) (simp_all add: e1 getBackoffDelay_eq)
  also have "\<dots> = executeWithRetry_from operation (Suc (Suc (Suc 0))) (Some e2)
                      (Suc (Suc (Suc 0))) [1000, 2000]"
    by (subst retry_step [where e = e2]) (simp_all add: e2 getBackoffDelay_eq)
  also have "\<dots> = executeWithRetry_from operation (Suc (Suc (Suc (Suc 0)))) (Some e3)
                      (Suc (Suc (Suc (Suc 0)))) [1000, 2000, 4000]"
    by (subst retry_step [where e = e3]) (simp_all add: e3 getBackoffDelay_eq)
  also have "\<dots> = \<lparr> outcome = Inl (Some e3), calls = Suc (Suc (Suc (Suc 0))),
                       sleeps = [1000, 2000, 4000] \<rparr>"
    by (rule retry_done) simp
  finally show ?thesis unfolding n3 n4 using e3 by blast
qed

lemma retry_permission:
  assumes "operation 0 = Inl e" "err_code e = ''permission-denied'' \<or> err_code e = ''unauthenticated''"
  shows "executeWithRetry operation = \<lparr> outcome = Inl (Some e), calls = 1, sleeps = [] \<rparr>"
  using assms
  by (subst executeWithRetry_def, subst executeWithRetry_from.simps) (auto simp: RETRY_CONFIG_def)

lemma retry_from_outcome:
  "attempt \<le> 3 \<or> le \<noteq> None
     \<Longrightarrow> outcome (executeWithRetry_from operation attempt le n sl) \<noteq> Inl None
         \<and> (attempt \<le> 3 \<longrightarrow> n < calls (executeWithRetry_from operation attempt le n sl))
         \<and> n \<le> calls (executeWithRetry_from operation attempt le n sl)"
proof (induction operation attempt le n sl rule: executeWithRetry_from.induct)
  case (1 operation attempt lastError ncalls slept)
  show ?case
  proof (cases "attempt \<le> 3")
    case False
    with 1 show ?thesis by (simp add: retry_done)
  next
    case True
    show ?thesis
    proof (cases "operation ncalls")
      case (Inr r)
      with True show ?thesis
        by (subst (1 2 3) executeWithRetry_from.simps) (simp add: RETRY_CONFIG_def Let_def)
    next
      case (Inl e)
      show ?thesis
      proof (cases "err_code e = ''permission-denied'' \<or> err_code e = ''unauthenticated''")
        case True
        with \<open>attempt \<le> 3\<close> Inl show ?thesis
          by (subst (1 2 3) executeWithRetry_from.simps) (auto simp: RETRY_CONFIG_def Let_def)
      next
        case False
        with \<open>attempt \<le> 3\<close> Inl 
        have ih: "outcome (executeWithRetry_from operation (attempt + 1) (Some e) (ncalls + 1)
                    (if attempt > 0 then slept @ [getBackoffDelay (attempt - 1)] else slept)) \<noteq> Inl None
         \<and> ncalls + 1 \<le> calls (executeWithRetry_from operation (attempt + 1) (Some e) (ncalls + 1)
                    (if attempt > 0 then slept @ [getBackoffDelay (attempt - 1)] else slept))"
          using "1.IH" [of "if attempt > 0 then slept @ [getBackoffDelay (attempt - 1)] else slept" e]
          by (simp add: RETRY_CONFIG_def)
        from False \<open>attempt \<le> 3\<close> Inl
        have "executeWithRetry_from operation attempt lastError ncalls slept =
              executeWithRetry_from operation (attempt + 1) (Some e) (ncalls + 1)
                    (if attempt > 0 then slept @ [getBackoffDelay (attempt - 1)] else slept)"
          using retry_step [of attempt operation ncalls e lastError slept] by simp
        with ih show ?thesis by simp
      qed
    qed
  qed
qed

lemma executeWithRetry_outcome:
  "outcome (executeWithRetry operation) \<noteq> Inl None \<and> 0 < calls (executeWithRetry operation)"
  using retry_from_outcome [of 0 None operation 0 "[]"] by (simp add: executeWithRetry_def)

text \<open>
  Claim C6.  An operation that fails on every call with an error whose code is neither
  \<^verbatim>\<open>permission-denied\<close> nor \<^verbatim>\<open>unauthenticated\<close> (a network error, say) is called
  \<open>maxRetries + 1 = 4\<close> times, with the delays 1000, 2000 and 4000 ms between the calls
  (the initial delay doubled per retry and capped at 10000 ms), and the error of the last
  call is thrown.  An operation whose first call fails with \<^verbatim>\<open>permission-denied\<close> or
  \<^verbatim>\<open>unauthenticated\<close> is called once, without any delay, and that error is thrown.
\<close>

theorem executeWithRetry_attempts:
  "((\<forall>k. \<exists>e. operation k = Inl e \<and> err_code e \<noteq> ''permission-denied''
                \<and> err_code e \<noteq> ''unauthenticated'')
      \<longrightarrow> (\<exists>e. operation (maxRetries RETRY_CONFIG) = Inl e
               \<and> executeWithRetry operation =
                   \<lparr> outcome = Inl (Some e), calls = maxRetries RETRY_CONFIG + 1,
                     sleeps = map getBackoffDelay [0 ..< maxRetries RETRY_CONFIG] \<rparr>))
   \<and> (operation 0 = Inl e0
        \<and> (err_code e0 = ''permission-denied'' \<or> err_code e0 = ''unauthenticated'')
      \<longrightarrow> executeWithRetry operation = \<lparr> outcome = Inl (Some e0), calls = 1, sleeps = [] \<rparr>)
   \<and> maxRetries RETRY_CONFIG = 3
   \<and> map getBackoffDelay [0 ..< maxRetries RETRY_CONFIG] = [1000, 2000, 4000]
   \<and> getBackoffDelay k = min (1000 * 2 ^ k) 10000"
proof -
  have m: "maxRetries RETRY_CONFIG = 3" by (simp add: RETRY_CONFIG_def)
  have up: "[0 ..< 3] = [0, 1, 2]" by (simp add: upt_rec)
  have d: "map getBackoffDelay [0 ..< maxRetries RETRY_CONFIG] = [1000, 2000, 4000]"
    by (simp add: m up getBackoffDelay_eq)
  show ?thesis
  proof (intro conjI impI)
    assume "\<forall>k. \<exists>e. operation k = Inl e \<and> err_code e \<noteq> ''permission-denied''
                \<and> err_code e \<noteq> ''unauthenticated''"
    from retry_exhausted [OF this]
    show "\<exists>e. operation (maxRetries RETRY_CONFIG) = Inl e
               \<and> executeWithRetry operation =
                   \<lparr> outcome = Inl (Some e), calls = maxRetries RETRY_CONFIG + 1,
                     sleeps = map getBackoffDelay [0 ..< maxRetries RETRY_CONFIG] \<rparr>"
      unfolding d unfolding m by simp
  next
    assume "operation 0 = Inl e0
        \<and> (err_code e0 = ''permission-denied'' \<or> err_code e0 = ''unauthenticated'')"
    then show "executeWithRetry operation = \<lparr> outcome = Inl (Some e0), calls = 1, sleeps = [] \<rparr>"
      using retry_permission [of operation e0] by blast
  qed (rule m, rule d, rule getBackoffDelay_eq)
qed

theorem executeWithRetry_attempts_witness:
  "executeWithRetry
       (\<lambda>k. Inl \<lparr> err_code = ''unavailable'', err_message = ''The service is unavailable'' \<rparr>
          :: fs_error + unit)
     = \<lparr> outcome = Inl (Some \<lparr> err_code = ''unavailable'',
                                 err_message = ''The service is unavailable'' \<rparr>),
         calls = 4, sleeps = [1000, 2000, 4000] \<rparr>
   \<and> executeWithRetry
       (\<lambda>k. Inl \<lparr> err_code = ''permission-denied'', err_message = ''Missing permissions'' \<rparr>
          :: fs_error + unit)
     = \<lparr> outcome = Inl (Some \<lparr> err_code = ''permission-denied'',
                                 err_message = ''Missing permissions'' \<rparr>),
         calls = 1, sleeps = [] \<rparr>"
proof -
  let ?net = "\<lparr> err_code = ''unavailable'', err_message = ''The service is unavailable'' \<rparr>"
  let ?perm = "\<lparr> err_code = ''permission-denied'', err_message = ''Missing permissions'' \<rparr>"
  let ?op = "\<lambda>k::nat. Inl ?net :: fs_error + unit"
  let ?op' = "\<lambda>k::nat. Inl ?perm :: fs_error + unit"
  have h: "\<forall>k. \<exists>e. ?op k = Inl e \<and> err_code e \<noteq> ''permission-denied''
             \<and> err_code e \<noteq> ''unauthenticated''"
    by simp
  from executeWithRetry_attempts [of ?op, THEN conjunct1, THEN mp, OF h]
  have "executeWithRetry ?op =
          \<lparr> outcome = Inl (Some ?net), calls = maxRetries RETRY_CONFIG + 1,
            sleeps = map getBackoffDelay [0 ..< maxRetries RETRY_CONFIG] \<rparr>"
    by auto
  moreover have d: "map getBackoffDelay [0 ..< maxRetries RETRY_CONFIG] = [1000, 2000, 4000]"
    using executeWithRetry_attempts [of ?op ?net 0] by blast
  moreover have m: "maxRetries RETRY_CONFIG = 3"
    using executeWithRetry_attempts [of ?op ?net 0] by blast
  ultimately have a: "executeWithRetry ?op =
      \<lparr> outcome = Inl (Some ?net), calls = 4, sleeps = [1000, 2000, 4000] \<rparr>"
    by (simp only: d) (simp only: m, simp)
  have h': "?op' 0 = Inl ?perm
      \<and> (err_code ?perm = ''permission-denied'' \<or> err_code ?perm = ''unauthenticated'')"
    by simp
  from executeWithRetry_attempts [of ?op' ?perm, THEN conjunct2, THEN conjunct1, THEN mp, OF h']
  have b: "executeWithRetry ?op' = \<lparr> outcome = Inl (Some ?perm), calls = 1, sleeps = [] \<rparr>" .
  from a b show ?thesis by (rule conjI)
qed

text \<open>
  Claim C7.  With an initialised client, \<open>fetchDocument\<close> reads from the server first
  (through the retry wrapper).  When the server read fails with an error that
  \<open>isOfflineError\<close> accepts, one cache read follows: a document found in the cache is
  returned with \<open>fromCache = true\<close>; when the cache read fails or finds no document the
  result is the failure that carries the message of the server error.  A server error of
  another kind is surfaced without a cache read, and a successful server read is returned
  with \<open>fromCache = false\<close>.
\<close>

theorem fetchDocument_policy:
  assumes "initialized st"
  shows "take 1 (snd (fetchDocument st)) = [ServerRead]
   \<and> (outcome (executeWithRetry (server_get st)) = Inl (Some e) \<and> isOfflineError (Some e)
      \<longrightarrow> snd (fetchDocument st) =
            replicate (calls (executeWithRetry (server_get st))) ServerRead @ [CacheRead]
        \<and> (cache_get st = Inr c \<and> snap_exists c
            \<longrightarrow> fst (fetchDocument st) =
                  Returns \<lparr> fr_success = True, fr_data = snap_data c, fr_error = None,
                            fr_fromCache = True \<rparr>)
        \<and> ((\<exists>ce. cache_get st = Inl ce) \<or> (\<exists>c'. cache_get st = Inr c' \<and> \<not> snap_exists c')
            \<longrightarrow> fst (fetchDocument st) =
                  Returns \<lparr> fr_success = False, fr_data = JNull,
                            fr_error = Some (if err_message e = [] then ''Failed to fetch document''
                                             else err_message e),
                            fr_fromCache = False \<rparr>))
   \<and> (outcome (executeWithRetry (server_get st)) = Inl (Some e) \<and> \<not> isOfflineError (Some e)
      \<longrightarrow> CacheRead \<notin> set (snd (fetchDocument st))
        \<and> fst (fetchDocument st) =
              Returns \<lparr> fr_success = False, fr_data = JNull,
                        fr_error = Some (if err_message e = [] then ''Failed to fetch document''
                                         else err_message e),
                        fr_fromCache = False \<rparr>)
   \<and> (outcome (executeWithRetry (server_get st)) = Inr s
      \<longrightarrow> CacheRead \<notin> set (snd (fetchDocument st))
        \<and> fst (fetchDocument st) =
              Returns \<lparr> fr_success = True,
                        fr_data = (if snap_exists s then snap_data s else JNull),
                        fr_error = None, fr_fromCache = False \<rparr>)"
proof -
  let ?run = "executeWithRetry (server_get st)"
  have pos: "0 < calls ?run" by (simp add: executeWithRetry_outcome)
  then obtain n where n: "calls ?run = Suc n" by (cases "calls ?run") auto
  have first: "take 1 (snd (fetchDocument st)) = [ServerRead]"
    using assms
    by (auto simp: fetchDocument_def Let_def n split: sum.splits)
  show ?thesis
    using assms first
    by (auto simp: fetchDocument_def Let_def fetch_failed_def split: sum.splits)
qed

theorem fetchDocument_policy_witness:
  "fetchDocument
     \<lparr> initialized = True,
       server_get = (\<lambda>k. Inl \<lparr> err_code = ''unavailable'', err_message = ''client is offline'' \<rparr>),
       cache_get = Inr \<lparr> snap_exists = True, snap_data = JObj [(''projects'', JArr [])] \<rparr> \<rparr>
   = (Returns \<lparr> fr_success = True, fr_data = JObj [(''projects'', JArr [])], fr_error = None,
                 fr_fromCache = True \<rparr>,
      [ServerRead, ServerRead, ServerRead, ServerRead, CacheRead])
   \<and> fetchDocument
     \<lparr> initialized = True,
       server_get = (\<lambda>k. Inl \<lparr> err_code = ''unavailable'', err_message = ''client is offline'' \<rparr>),
       cache_get = Inl \<lparr> err_code = ''unavailable'', err_message = ''not in cache'' \<rparr> \<rparr>
   = (Returns \<lparr> fr_success = False, fr_data = JNull, fr_error = Some ''client is offline'',
                 fr_fromCache = False \<rparr>,
      [ServerRead, ServerRead, ServerRead, ServerRead, CacheRead])"
proof -
  let ?e = "\<lparr> err_code = ''unavailable'', err_message = ''client is offline'' \<rparr>"
  let ?c = "\<lparr> snap_exists = True, snap_data = JObj [(''projects'', JArr [])] \<rparr>"
  let ?ce = "\<lparr> err_code = ''unavailable'', err_message = ''not in cache'' \<rparr>"
  let ?st1 = "\<lparr> initialized = True, server_get = (\<lambda>k. Inl ?e), cache_get = Inr ?c \<rparr>"
  let ?st2 = "\<lparr> initialized = True, server_get = (\<lambda>k. Inl ?e), cache_get = Inl ?ce \<rparr>"
  have "\<exists>e. (\<lambda>k::nat. Inl ?e :: fs_error + snapshot) 3 = Inl e
          \<and> executeWithRetry (\<lambda>k. Inl ?e :: fs_error + snapshot) =
              \<lparr> outcome = Inl (Some e), calls = 4, sleeps = [1000, 2000, 4000] \<rparr>"
    by (rule retry_exhausted) simp
  then have run: "executeWithRetry (\<lambda>k. Inl ?e :: fs_error + snapshot) =
              \<lparr> outcome = Inl (Some ?e), calls = 4, sleeps = [1000, 2000, 4000] \<rparr>"
    by auto
  have off: "isOfflineError (Some ?e)" by (simp add: isOfflineError_def)
  have r4: "replicate 4 ServerRead = [ServerRead, ServerRead, ServerRead, ServerRead]"
    by (simp add: numeral_eq_Suc)
  have a: "fetchDocument ?st1 =
      (Returns \<lparr> fr_success = True, fr_data = JObj [(''projects'', JArr [])], fr_error = None,
                 fr_fromCache = True \<rparr>,
       [ServerRead, ServerRead, ServerRead, ServerRead, CacheRead])"
    using fetchDocument_policy [of ?st1 ?e ?c ?c] run off r4
    by (intro prod_eqI) simp_all
  have b: "fetchDocument ?st2 =
      (Returns \<lparr> fr_success = False, fr_data = JNull, fr_error = Some ''client is offline'',
                 fr_fromCache = False \<rparr>,
       [ServerRead, ServerRead, ServerRead, ServerRead, CacheRead])"
    using fetchDocument_policy [of ?st2 ?e ?c ?c] run off r4
    by (intro prod_eqI) simp_all
  from a b show ?thesis by (rule conjI)
qed

section \<open>Properties of the sync coordinator and of the realtime filter\<close>

lemmas world_defs = syncToCloud_call_def syncToCloud_resume_def syncToCloud_finally_def
  timer_fires_def on_snapshot_def saveLocalProjects_def

lemma never_overlap_snoc:
  "never_overlap opn (evs @ [ev]) \<longleftrightarrow>
     never_overlap opn evs \<and> length (log_save (foldl log_save opn evs) ev) \<le> 1"
  by (induction evs arbitrary: opn) auto

lemma single_flight_call:
  "single_flight w \<Longrightarrow> single_flight (syncToCloud_call H e c projects w)"
  by (auto simp: single_flight_def syncToCloud_call_def never_overlap_snoc)

lemma find_fst_singleton:
  "find (\<lambda>a. fst a = c) [x] = Some y \<Longrightarrow> x = y \<and> fst y = c"
  by (auto split: if_splits)

lemma single_flight_resume:
  assumes "single_flight w"
  shows "single_flight (syncToCloud_resume H e c res w)"
proof (cases "find (\<lambda>a. fst a = c) (awaiting w)")
  case None
  with assms show ?thesis by (simp add: syncToCloud_resume_def)
next
  case (Some a)
  from assms have "length (awaiting w) \<le> 1" by (simp add: single_flight_def)
  with Some obtain x where x: "awaiting w = [x]"
    by (cases "awaiting w") auto
  with Some have ax: "x = a" "fst a = c" using find_fst_singleton by fastforce+
  obtain ps h where a: "a = (c, ps, h)" using ax by (cases a) auto
  from assms x ax a have f: "foldl log_save [] (saves w) = [c]" and n: "never_overlap [] (saves w)"
    by (simp_all add: single_flight_def)
  show ?thesis
    using Some x ax a f n
    by (cases res; cases "syncQueue w")
       (simp_all add: syncToCloud_resume_def syncToCloud_finally_def saveLocalProjects_def
          single_flight_def never_overlap_snoc Let_def)
qed

lemma single_flight_timer: "single_flight w \<Longrightarrow> single_flight (timer_fires H e w)"
proof (cases "timers w")
  case Nil
  assume "single_flight w"
  with Nil show ?thesis by (simp add: timer_fires_def)
next
  case (Cons t ts)
  assume "single_flight w"
  then have "single_flight (w\<lparr> timers := ts \<rparr>)" by (simp add: single_flight_def)
  then show ?thesis using Cons
    by (cases t) (simp add: timer_fires_def single_flight_call)
qed

lemma single_flight_snapshot:
  "single_flight w \<Longrightarrow> single_flight (on_snapshot H e projects md w)"
  by (auto simp: single_flight_def on_snapshot_def saveLocalProjects_def Let_def)

lemma single_flight_step:
  "single_flight w \<Longrightarrow> snd ev \<noteq> ClearSyncState \<Longrightarrow> single_flight (step H w ev)"
proof (cases ev)
  case (Pair e x)
  assume "single_flight w" and "snd ev \<noteq> ClearSyncState"
  then show ?thesis unfolding Pair
    by (cases x)
       (simp_all add: single_flight_call single_flight_resume single_flight_timer
          single_flight_snapshot)
qed

lemma single_flight_run:
  "single_flight w \<Longrightarrow> clear_free trace \<Longrightarrow> single_flight (run H trace w)"
  unfolding run_def clear_free_def
proof (induction trace arbitrary: w)
  case Nil
  then show ?case by simp
next
  case (Cons ev trace)
  from Cons.prems have "snd ev \<noteq> ClearSyncState" and rest: "ClearSyncState \<notin> snd ` set trace"
    by auto
  with Cons.prems(1) have "single_flight (step H w ev)" by (simp add: single_flight_step)
  from Cons.IH [OF this rest] show ?case by simp
qed

lemma single_flight_world0: "single_flight world0"
  by (simp add: single_flight_def world0_def)

text \<open>
  What holds of the queue.  In a run from the initial state in which \<^verbatim>\<open>clearSyncState\<close> is
  never called, at most one save is open at any time.  An authenticated upload called
  while one is in progress is appended to the queue and starts no save.  When the save in
  flight settles (success or failure) the flag is cleared and the head of the queue is
  handed to a timer; a request whose timer fires while an upload is in progress is
  appended to the queue again.  Two uploads issued one during the other, with nothing else
  happening, give two saves one after the other, and both callers receive a result.
\<close>

lemma uploads_single_flight_clear_free:
  "clear_free trace \<Longrightarrow> single_flight (run H trace world0)"
  by (rule single_flight_run) (rule single_flight_world0)

lemma upload_in_progress_is_queued:
  "isAuthenticated e \<Longrightarrow> syncInProgress w
   \<Longrightarrow> step H w (e, Upload c projects) =
       w\<lparr> syncQueue := syncQueue w @ [(c, projects)], pushes := pushes w @ [c] \<rparr>"
  by (simp add: syncToCloud_call_def)

lemma settled_save_releases_head:
  "awaiting w = [(c, projects, h)] \<Longrightarrow> syncQueue w = q # qs
   \<Longrightarrow> (let w' = step H w (e, SaveSettles c res)
        in \<not> syncInProgress w' \<and> awaiting w' = [] \<and> syncQueue w' = qs
           \<and> timers w' = timers w @ [q] \<and> saves w' = saves w @ [SaveEnd c])"
  by (cases res) (simp_all add: world_defs Let_def)

lemma timer_in_progress_is_queued_again:
  "timers w = (c, projects) # ts \<Longrightarrow> isAuthenticated e \<Longrightarrow> syncInProgress w
   \<Longrightarrow> step H w (e, TimerFires) =
       w\<lparr> timers := ts, syncQueue := syncQueue w @ [(c, projects)],
          pushes := pushes w @ [c] \<rparr>"
  by (simp add: timer_fires_def syncToCloud_call_def)

lemma scenario_two_uploads:
  assumes "isAuthenticated e1" "isAuthenticated e2" "isAuthenticated e4"
  shows "(let w' = run H [(e1, Upload c1 A), (e2, Upload c2 B), (e3, SaveSettles c1 r1),
                         (e4, TimerFires), (e5, SaveSettles c2 r2)] world0
          in saves w' = [SaveStart c1, SaveEnd c1, SaveStart c2, SaveEnd c2]
             \<and> map fst (results w') = [c1, c2]
             \<and> map (sr_success \<circ> snd) (results w') = [r1 = SaveOk, r2 = SaveOk]
             \<and> \<not> syncInProgress w' \<and> syncQueue w' = [] \<and> timers w' = [] \<and> awaiting w' = [])"
  using assms
  by (cases r1; cases r2) (simp_all add: run_def world_defs world0_def Let_def)

text \<open>
  Claim C3, at the input where the code fails.  The queue is filled with \<^verbatim>\<open>push\<close> and
  emptied with \<^verbatim>\<open>shift\<close>, but the \<^verbatim>\<open>finally\<close> block clears \<open>syncInProgress\<close> before the
  request it has taken from the queue runs (\<^verbatim>\<open>setTimeout(nextSync, 100)\<close>).  In
  \<open>overtaking_trace\<close> request 2 is queued while upload 1 is in progress; upload 3 is called
  after upload 1 has completed and before the timer of request 2 fires, so it starts at
  once; request 4 is queued while upload 3 is in progress; the timer of request 2 fires
  during upload 3, and request 2 is pushed onto the queue again, behind request 4.  The
  saves start in the order 1, 3, 4, 2: the requests are not served in the order in which
  they were queued.
\<close>

theorem uploads_overtake:
  "syncQueue (run host0 (take 2 overtaking_trace) world0) = [(2, projectsB)]
   \<and> syncQueue (run host0 (take 5 overtaking_trace) world0) = [(4, projectsB)]
   \<and> timers (run host0 (take 5 overtaking_trace) world0) = [(2, projectsB)]
   \<and> pushes (run host0 overtaking_trace world0) = [2, 4, 2]
   \<and> started (saves (run host0 overtaking_trace world0)) = [1, 3, 4, 2]
   \<and> never_overlap [] (saves (run host0 overtaking_trace world0))"
  by (simp add: overtaking_trace_def env0_def run_def world_defs world0_def Let_def)

text \<open>
  \<^verbatim>\<open>clearSyncState\<close> called while an upload is in progress clears the flag and the queue
  under the suspended activation.  An upload called next starts a second save while the
  first is open, and a caller whose request was in the queue never receives a result.
\<close>

lemma clearSyncState_during_upload:
  "saves (run host0 (map (Pair env0)
            [Upload 1 projectsA, ClearSyncState, Upload 2 projectsB]) world0)
     = [SaveStart 1, SaveStart 2]
   \<and> \<not> never_overlap [] (saves (run host0 (map (Pair env0)
            [Upload 1 projectsA, ClearSyncState, Upload 2 projectsB]) world0))
   \<and> map fst (results (run host0 (map (Pair env0)
            [Upload 1 projectsA, Upload 2 projectsB, ClearSyncState, SaveSettles 1 SaveOk])
            world0)) = [1]
   \<and> syncQueue (run host0 (map (Pair env0)
            [Upload 1 projectsA, Upload 2 projectsB, ClearSyncState, SaveSettles 1 SaveOk])
            world0) = []
   \<and> timers (run host0 (map (Pair env0)
            [Upload 1 projectsA, Upload 2 projectsB, ClearSyncState, SaveSettles 1 SaveOk])
            world0) = []
   \<and> awaiting (run host0 (map (Pair env0)
            [Upload 1 projectsA, Upload 2 projectsB, ClearSyncState, SaveSettles 1 SaveOk])
            world0) = []"
  by (simp add: env0_def run_def world_defs world0_def clearSyncState_def stopRealtimeSync_def
        Let_def)

text \<open>
  Claim C8.  A snapshot that arrives while a sync is in progress, and a snapshot whose
  fingerprint equals \<open>lastSyncedHash\<close>, leave the whole state as it is: the sync state,
  local storage and the log of \<^verbatim>\<open>onUpdate\<close> calls.  A successful upload of a collection
  records its fingerprint as \<open>lastSyncedHash\<close>, so a snapshot of that collection after
  the upload is discarded.
\<close>

theorem snapshot_echo_discarded:
  "(syncInProgress w \<longrightarrow> step H w (e, Snapshot projects md) = w)
   \<and> (lastSyncedHash w = Some (calculateHash H (Some projects))
      \<longrightarrow> step H w (e, Snapshot projects md) = w)
   \<and> (isAuthenticated e1 \<and> \<not> syncInProgress w \<and> awaiting w = []
      \<longrightarrow> (let w' = run H [(e1, Upload c projects), (e2, SaveSettles c SaveOk)] w
           in lastSyncedHash w' = Some (calculateHash H (Some projects))
              \<and> \<not> syncInProgress w'
              \<and> step H w' (e, Snapshot projects md) = w'))"
  by (cases "syncQueue w"; cases "setItem_throws e2") (simp_all add: run_def world_defs Let_def)

theorem snapshot_echo_discarded_witness:
  "run host0 [(env0, Upload 1 projectsA), (env0, SaveSettles 1 SaveOk),
              (env0, Snapshot projectsA \<lparr> md_fromCache = False, md_hasPendingWrites = False \<rparr>)]
       world0
     = run host0 [(env0, Upload 1 projectsA), (env0, SaveSettles 1 SaveOk)] world0
   \<and> updates (run host0 [(env0, Upload 1 projectsA), (env0, SaveSettles 1 SaveOk),
              (env0, Snapshot projectsA \<lparr> md_fromCache = False, md_hasPendingWrites = False \<rparr>)]
       world0) = []
   \<and> step host0 (step host0 world0 (env0, Upload 1 projectsA))
         (env0, Snapshot projectsB \<lparr> md_fromCache = False, md_hasPendingWrites = False \<rparr>)
     = step host0 world0 (env0, Upload 1 projectsA)"
proof -
  let ?md = "\<lparr> md_fromCache = False, md_hasPendingWrites = False \<rparr>"
  let ?w1 = "step host0 world0 (env0, Upload 1 projectsA)"
  let ?w2 = "run host0 [(env0, Upload 1 projectsA), (env0, SaveSettles 1 SaveOk)] world0"
  have auth: "isAuthenticated env0 \<and> \<not> syncInProgress world0 \<and> awaiting world0 = []"
    by (simp add: env0_def world0_def)
  have prog: "syncInProgress ?w1" by (simp add: syncToCloud_call_def world0_def env0_def)
  from snapshot_echo_discarded [of ?w1 host0 env0 projectsB ?md] prog
  have a: "step host0 ?w1 (env0, Snapshot projectsB ?md) = ?w1" by blast
  from snapshot_echo_discarded [of world0 host0 env0 projectsA ?md env0 1 env0] auth
  have b: "step host0 ?w2 (env0, Snapshot projectsA ?md) = ?w2"
    by (simp only: Let_def) blast
  have c: "run host0 [(env0, Upload 1 projectsA), (env0, SaveSettles 1 SaveOk),
              (env0, Snapshot projectsA ?md)] world0 = step host0 ?w2 (env0, Snapshot projectsA ?md)"
    by (simp add: run_def)
  have d: "updates ?w2 = []" by (simp add: run_def world_defs world0_def env0_def Let_def)
  from a b c d show ?thesis by simp
qed

end
